theory Spec2Isabelle
  imports Main
begin

section \<open>Python strings\<close>

text \<open>
  A Python \<^verbatim>\<open>str\<close> is a sequence of Unicode code points. It is modelled as a list of
  natural numbers, one per code point; \<open>lit\<close> turns a literal of the source into that
  form. The predicates below are the CPython tables behind \<^verbatim>\<open>str.isspace\<close>
  (used by \<^verbatim>\<open>strip()\<close> and \<^verbatim>\<open>split()\<close>) and behind \<^verbatim>\<open>str.splitlines\<close>.
\<close>

type_synonym ustr = "nat list"

definition lit :: "string \<Rightarrow> ustr" where
  "lit s = map of_char s"

definition isspace :: "nat \<Rightarrow> bool" where
  "isspace c \<longleftrightarrow>
     (9 \<le> c \<and> c \<le> 13) \<or> (28 \<le> c \<and> c \<le> 32) \<or> c = 133 \<or> c = 160 \<or> c = 5760 \<or>
     (8192 \<le> c \<and> c \<le> 8202) \<or> c = 8232 \<or> c = 8233 \<or> c = 8239 \<or> c = 8287 \<or>
     c = 12288"

definition islinebreak :: "nat \<Rightarrow> bool" where
  "islinebreak c \<longleftrightarrow>
     (10 \<le> c \<and> c \<le> 13) \<or> (28 \<le> c \<and> c \<le> 30) \<or> c = 133 \<or> c = 8232 \<or> c = 8233"

text \<open>\<^verbatim>\<open>s.strip()\<close>: leading and trailing whitespace removed.\<close>

definition strip :: "ustr \<Rightarrow> ustr" where
  "strip s = rev (dropWhile isspace (rev (dropWhile isspace s)))"

text \<open>\<^verbatim>\<open>s.startswith(p)\<close>.\<close>

fun startswith :: "ustr \<Rightarrow> ustr \<Rightarrow> bool" where
  "startswith s [] = True"
| "startswith [] (p # ps) = False"
| "startswith (c # cs) (p # ps) = (c = p \<and> startswith cs ps)"

text \<open>\<^verbatim>\<open>sub in s\<close>: \<open>sub\<close> occurs in \<open>s\<close> as a contiguous run.\<close>

fun contains :: "ustr \<Rightarrow> ustr \<Rightarrow> bool" where
  "contains [] sub = (sub = [])"
| "contains (c # cs) sub = (startswith (c # cs) sub \<or> contains cs sub)"

text \<open>
  \<^verbatim>\<open>s.split()\<close> with no argument: the maximal runs of non-whitespace characters.
  \<open>cur\<close> is the run being read.
\<close>

fun split_from :: "ustr \<Rightarrow> ustr \<Rightarrow> ustr list" where
  "split_from cur [] = (if cur = [] then [] else [cur])"
| "split_from cur (c # cs) =
     (if isspace c then (if cur = [] then split_from [] cs else cur # split_from [] cs)
      else split_from (cur @ [c]) cs)"

definition split_ws :: "ustr \<Rightarrow> ustr list" where
  "split_ws s = split_from [] s"

text \<open>
  \<^verbatim>\<open>s.splitlines()\<close>: the lines of \<open>s\<close> without their line boundaries; a carriage
  return followed by a line feed is one boundary, and a boundary at the very end opens no
  further line. \<open>cur\<close> is the line being read.
\<close>

fun splitlines_from :: "ustr \<Rightarrow> ustr \<Rightarrow> ustr list" where
  "splitlines_from cur [] = (if cur = [] then [] else [cur])"
| "splitlines_from cur [c] = (if islinebreak c then [cur] else [cur @ [c]])"
| "splitlines_from cur (c # d # ds) =
     (if c = 13 \<and> d = 10 then cur # splitlines_from [] ds
      else if islinebreak c then cur # splitlines_from [] (d # ds)
      else splitlines_from (cur @ [c]) (d # ds))"

definition splitlines :: "ustr \<Rightarrow> ustr list" where
  "splitlines s = splitlines_from [] s"

text \<open>\<^verbatim>\<open>sep.join(xs)\<close>.\<close>

fun str_join :: "ustr \<Rightarrow> ustr list \<Rightarrow> ustr" where
  "str_join sep [] = []"
| "str_join sep [x] = x"
| "str_join sep (x # y # ys) = x @ sep @ str_join sep (y # ys)"

text \<open>\<^verbatim>\<open>s.ljust(w)\<close>: padded with spaces on the right up to width \<open>w\<close>.\<close>

definition ljust :: "ustr \<Rightarrow> nat \<Rightarrow> ustr" where
  "ljust s w = s @ replicate (w - length s) 32"

section \<open>Errors and the process environment\<close>

text \<open>
  The exceptions that can leave a handler: \<^verbatim>\<open>sys.exit(code)\<close>, an index out of
  range, an operating-system error from a collaborator (the command cannot be started, a
  path cannot be opened or created), and a text that the encoding of the file cannot
  represent.
\<close>

datatype error = SystemExit nat | IndexError | OSError | UnicodeEncodeError

text \<open>\<^verbatim>\<open>xs[i]\<close> for \<open>i \<ge> 0\<close> and \<^verbatim>\<open>xs[-1]\<close>.\<close>

definition item :: "'a list \<Rightarrow> nat \<Rightarrow> error + 'a" where
  "item xs i = (if i < length xs then Inr (xs ! i) else Inl IndexError)"

definition item_last :: "'a list \<Rightarrow> error + 'a" where
  "item_last xs = (if xs = [] then Inl IndexError else Inr (last xs))"

text \<open>Loops whose body may raise: the first error ends the loop.\<close>

fun for_each :: "('s \<Rightarrow> 'a \<Rightarrow> error + 's) \<Rightarrow> 's \<Rightarrow> 'a list \<Rightarrow> error + 's" where
  "for_each body s [] = Inr s"
| "for_each body s (x # xs) =
     (case body s x of Inl e \<Rightarrow> Inl e | Inr s' \<Rightarrow> for_each body s' xs)"

fun collect :: "('a \<Rightarrow> error + 'b) \<Rightarrow> 'a list \<Rightarrow> error + 'b list" where
  "collect f [] = Inr []"
| "collect f (x # xs) =
     (case f x of Inl e \<Rightarrow> Inl e
      | Inr y \<Rightarrow> (case collect f xs of Inl e \<Rightarrow> Inl e | Inr ys \<Rightarrow> Inr (y # ys)))"

section \<open>The routing codec (class FRR)\<close>

record FrrSetArgs =
  sector_addresses :: "ustr list"
  backplane_assigned_addr :: ustr
  backplane_gw_ip :: ustr

text \<open>The list \<^verbatim>\<open>lines\<close> of \<^verbatim>\<open>FRR.set\<close> and the text handed to \<^verbatim>\<open>write_text\<close>.\<close>

definition FRR_set_lines :: "FrrSetArgs \<Rightarrow> ustr list" where
  "FRR_set_lines args =
     [lit ''frr defaults traditional'',
      lit ''log syslog warning'',
      lit ''ip forwarding'',
      lit ''!'',
      lit ''interface eth0'']
     @ map (\<lambda>addr. lit '' ip address '' @ addr) (sector_addresses args)
     @ [lit '' no shutdown'',
        lit ''!'',
        lit ''interface eth1'',
        lit '' ip address '' @ backplane_assigned_addr args,
        lit '' no shutdown'',
        lit ''!'',
        lit ''ip route 0.0.0.0/0 '' @ backplane_gw_ip args,
        lit ''!'',
        lit ''end'',
        lit '''']"

definition FRR_set_text :: "FrrSetArgs \<Rightarrow> ustr" where
  "FRR_set_text args = str_join [10] (FRR_set_lines args)"

text \<open>
  The local variables of \<^verbatim>\<open>FRR.get\<close>; \<^verbatim>\<open>ip_type\<close> is one of the three string
  literals \<^verbatim>\<open>"sector"\<close>, \<^verbatim>\<open>"backplane"\<close> and \<^verbatim>\<open>""\<close>.
\<close>

datatype ip_type = Sector | Backplane | Unset

record frr_locals =
  l_sector_addresses :: "ustr list"
  l_backplane_addr :: ustr
  l_backplane_gateway :: ustr
  l_ip_type :: ip_type

definition frr_initial :: frr_locals where
  "frr_initial = \<lparr>l_sector_addresses = [], l_backplane_addr = [], l_backplane_gateway = [],
     l_ip_type = Unset\<rparr>"

text \<open>One pass of the loop body of \<^verbatim>\<open>FRR.get\<close> on one line of the file.\<close>

definition frr_line :: "frr_locals \<Rightarrow> ustr \<Rightarrow> error + frr_locals" where
  "frr_line st line =
     (let config_line = strip line;
          st1 = (if startswith config_line (lit ''interface'')
                 then st\<lparr>l_ip_type :=
                        (if contains config_line (lit ''eth0'') then Sector else Backplane)\<rparr>
                 else st)
      in if startswith config_line (lit ''ip address'') then
           (case item (split_ws config_line) 2 of
              Inl e \<Rightarrow> Inl e
            | Inr addr \<Rightarrow>
                if l_ip_type st1 = Sector
                then Inr (st1\<lparr>l_sector_addresses := l_sector_addresses st1 @ [addr]\<rparr>)
                else Inr (st1\<lparr>l_backplane_addr := addr, l_ip_type := Unset\<rparr>))
         else if startswith config_line (lit ''ip route 0.0.0.0/0'') then
           (case item_last (split_ws config_line) of
              Inl e \<Rightarrow> Inl e
            | Inr gw \<Rightarrow> Inr (st1\<lparr>l_backplane_gateway := gw\<rparr>))
         else Inr st1)"

definition FRR_scan :: "ustr \<Rightarrow> error + frr_locals" where
  "FRR_scan text = for_each frr_line frr_initial (splitlines text)"

text \<open>The \<^verbatim>\<open>rows\<close> of \<^verbatim>\<open>FRR.get\<close> for a configuration at path \<open>config\<close>.\<close>

definition frr_rows :: "ustr \<Rightarrow> frr_locals \<Rightarrow> ustr list list" where
  "frr_rows config st =
     [[lit ''Sector Gateways'', str_join (lit '', '') (l_sector_addresses st)],
      [lit ''Backplane Address'', l_backplane_addr st],
      [lit ''Backplane Gateway'', l_backplane_gateway st],
      [lit ''Config Path'', config]]"

section \<open>The firewall codec (class NFTables)\<close>

record NFTablesSetArgs =
  primary_sector_ip :: ustr
  backplane_network :: ustr

text \<open>The list \<^verbatim>\<open>lines\<close> of \<^verbatim>\<open>NFTables.set\<close> and the text handed to \<^verbatim>\<open>write_text\<close>.\<close>

definition NFTables_set_lines :: "NFTablesSetArgs \<Rightarrow> ustr list" where
  "NFTables_set_lines args =
     [lit ''table ip nat {'',
      lit ''  chain prerouting {'',
      lit ''    type nat hook prerouting priority -100;'',
      lit ''    iif \"eth1\" ip daddr '' @ backplane_network args @ lit '' dnat to ''
        @ primary_sector_ip args,
      lit ''    iif \"eth0\" ip daddr '' @ backplane_network args @ lit '' drop'',
      lit ''  }'',
      lit '''',
      lit ''  chain postrouting {'',
      lit ''    type nat hook postrouting priority 100;'',
      lit ''    oif \"eth1\" masquerade'',
      lit ''  }'',
      lit ''}'',
      lit '''']"

definition NFTables_set_text :: "NFTablesSetArgs \<Rightarrow> ustr" where
  "NFTables_set_text args = str_join [10] (NFTables_set_lines args)"

text \<open>The local variables of \<^verbatim>\<open>NFTables.get\<close> and one pass of its loop body.\<close>

record nft_locals =
  l_prerouting :: ustr
  l_postrouting :: ustr

definition nft_initial :: nft_locals where
  "nft_initial = \<lparr>l_prerouting = [], l_postrouting = []\<rparr>"

definition nft_line :: "nft_locals \<Rightarrow> ustr \<Rightarrow> nft_locals" where
  "nft_line st line =
     (let config_line = strip line
      in if startswith config_line (lit ''iif'') then st\<lparr>l_prerouting := config_line\<rparr>
         else if startswith config_line (lit ''oif'') then st\<lparr>l_postrouting := config_line\<rparr>
         else st)"

definition NFTables_scan :: "ustr \<Rightarrow> nft_locals" where
  "NFTables_scan text = foldl nft_line nft_initial (splitlines text)"

definition nft_rows :: "ustr \<Rightarrow> nft_locals \<Rightarrow> ustr list list" where
  "nft_rows config st =
     [[lit ''Prerouting Rule'', l_prerouting st],
      [lit ''Postrouting Rule'', l_postrouting st],
      [lit ''Config Path'', config]]"

section \<open>The table renderer\<close>

text \<open>
  \<^verbatim>\<open>__format_row__\<close>: the generator reads \<^verbatim>\<open>col_widths[i]\<close> for every cell of the
  row, so a row longer than \<^verbatim>\<open>col_widths\<close> raises.
\<close>

definition format_row :: "nat list \<Rightarrow> ustr list \<Rightarrow> error + ustr" where
  "format_row col_widths row =
     (case collect (\<lambda>(i, cell). case item col_widths i of
                                   Inl e \<Rightarrow> Inl e
                                 | Inr w \<Rightarrow> Inr (ljust cell w))
             (enumerate 0 row) of
        Inl e \<Rightarrow> Inl e
      | Inr cells \<Rightarrow> Inr (str_join (lit ''  '') cells))"

text \<open>The assignment \<^verbatim>\<open>col_widths[i] = max(col_widths[i], len(cell))\<close>.\<close>

definition widen :: "nat list \<Rightarrow> nat \<times> ustr \<Rightarrow> error + nat list" where
  "widen col_widths ic =
     (case ic of (i, cell) \<Rightarrow>
        (case item col_widths i of
           Inl e \<Rightarrow> Inl e
         | Inr w \<Rightarrow> Inr (col_widths[i := max w (length cell)])))"

definition widen_row :: "nat list \<Rightarrow> ustr list \<Rightarrow> error + nat list" where
  "widen_row col_widths row = for_each widen col_widths (enumerate 0 row)"

definition column_widths :: "ustr list \<Rightarrow> ustr list list \<Rightarrow> error + nat list" where
  "column_widths headers rows = for_each widen_row (map length headers) rows"

section \<open>The process: privilege, files, output streams, the service manager\<close>

text \<open>
  What a handler can observe and change. \<open>files\<close> maps the path of a regular file to its
  text, \<open>dirs\<close> holds the directories, \<open>encodable\<close> tells the code points that the
  encoding used for files can represent; \<open>stdout\<close> and \<open>stderr\<close> hold the lines printed
  so far; \<open>commands\<close> is the log of external commands started, and \<open>service\<close> says how
  the service manager answers a command. Permission and device errors of the operating
  system are outside the model.
\<close>

datatype outcome = Returned int | NotStarted

record world =
  euid :: nat
  files :: "ustr \<rightharpoonup> ustr"
  dirs :: "ustr set"
  encodable :: "nat \<Rightarrow> bool"
  stdout :: "ustr list"
  stderr :: "ustr list"
  commands :: "ustr list list"
  service :: "ustr list \<Rightarrow> outcome"

type_synonym 'a io = "world \<Rightarrow> (error + 'a) \<times> world"

definition and_then :: "'a io \<Rightarrow> ('a \<Rightarrow> 'b io) \<Rightarrow> 'b io" where
  "and_then m f w = (case m w of (Inl e, w') \<Rightarrow> (Inl e, w') | (Inr x, w') \<Rightarrow> f x w')"

definition lift :: "error + 'a \<Rightarrow> 'a io" where
  "lift r w = (r, w)"

definition print_out :: "ustr \<Rightarrow> unit io" where
  "print_out line w = (Inr (), w\<lparr>stdout := stdout w @ [line]\<rparr>)"

text \<open>\<^verbatim>\<open>__die__\<close>: the message goes to the error stream, then \<^verbatim>\<open>sys.exit(1)\<close>.\<close>

definition die :: "ustr \<Rightarrow> 'a io" where
  "die msg w = (Inl (SystemExit 1), w\<lparr>stderr := stderr w @ [lit ''ERROR: '' @ msg]\<rparr>)"

text \<open>The exit status of the process for the result of \<^verbatim>\<open>main\<close>.\<close>

fun exit_status :: "error + 'a \<Rightarrow> nat" where
  "exit_status (Inr _) = 0"
| "exit_status (Inl (SystemExit n)) = n"
| "exit_status (Inl _) = 1"

text \<open>\<^verbatim>\<open>Path.parent\<close> and \<^verbatim>\<open>Path.parents\<close>, on paths in normal form: the directory
  that holds \<open>p\<close>, and every directory above \<open>p\<close>, the root first. \<open>seen\<close> is the part of
  the path read so far.\<close>

definition parent :: "ustr \<Rightarrow> ustr" where
  "parent p =
     (let d = rev (drop 1 (dropWhile (\<lambda>c. c \<noteq> 47) (rev p)))
      in if 47 \<notin> set p then lit ''.'' else if d = [] then lit ''/'' else d)"

fun ancestors_from :: "ustr \<Rightarrow> ustr \<Rightarrow> ustr list" where
  "ancestors_from seen [] = []"
| "ancestors_from seen (c # cs) =
     (if c = 47 then (if seen = [] then [47] else seen) # ancestors_from (seen @ [c]) cs
      else ancestors_from (seen @ [c]) cs)"

definition ancestors :: "ustr \<Rightarrow> ustr list" where
  "ancestors p = ancestors_from [] p"

text \<open>
  A regular file stands at \<open>d\<close> or at a directory above it: \<open>d\<close> cannot be opened as a
  directory, cannot be created, and no path below it can be looked up.
\<close>

definition not_a_directory :: "world \<Rightarrow> ustr \<Rightarrow> bool" where
  "not_a_directory w d \<longleftrightarrow> (\<exists>q\<in>set (d # ancestors d). files w q \<noteq> None)"

text \<open>
  \<^verbatim>\<open>Path.exists\<close>: the path names a file or a directory and can be looked up.
  \<^verbatim>\<open>Path.mkdir(parents=True, exist_ok=True)\<close>: raises \<^verbatim>\<open>FileExistsError\<close> or
  \<^verbatim>\<open>NotADirectoryError\<close> when a regular file is in the way and creates nothing then;
  otherwise the directory and the missing directories above it are there afterwards.
\<close>

definition exists :: "world \<Rightarrow> ustr \<Rightarrow> bool" where
  "exists w p \<longleftrightarrow> (files w p \<noteq> None \<or> p \<in> dirs w) \<and> \<not> not_a_directory w (parent p)"

definition mkdir :: "ustr \<Rightarrow> unit io" where
  "mkdir d w =
     (if not_a_directory w d then (Inl OSError, w)
      else (Inr (), w\<lparr>dirs := dirs w \<union> set (d # ancestors d)\<rparr>))"

text \<open>
  \<^verbatim>\<open>Path.read_text\<close> raises when the path is not a regular file that can be looked up.
  \<^verbatim>\<open>Path.write_text\<close> opens the file for writing, which raises
  \<^verbatim>\<open>IsADirectoryError\<close>, \<^verbatim>\<open>FileNotFoundError\<close> or \<^verbatim>\<open>NotADirectoryError\<close> when the
  path is a directory or its parent is not a directory; the file is empty once opened, and
  a text with a code point the encoding cannot represent raises
  \<^verbatim>\<open>UnicodeEncodeError\<close> before anything is written.
\<close>

definition read_text :: "ustr \<Rightarrow> ustr io" where
  "read_text p w =
     (case files w p of
        None \<Rightarrow> (Inl OSError, w)
      | Some t \<Rightarrow> if not_a_directory w (parent p) then (Inl OSError, w) else (Inr t, w))"

definition write_text :: "ustr \<Rightarrow> ustr \<Rightarrow> unit io" where
  "write_text p t w =
     (if p \<in> dirs w \<or> parent p \<notin> dirs w \<or> not_a_directory w (parent p)
      then (Inl OSError, w)
      else if \<forall>c\<in>set t. encodable w c
      then (Inr (), w\<lparr>files := (files w)(p \<mapsto> t)\<rparr>)
      else (Inl UnicodeEncodeError, w\<lparr>files := (files w)(p \<mapsto> [])\<rparr>))"

text \<open>\<^verbatim>\<open>__ensure_root__\<close>, the constructor \<^verbatim>\<open>__init__\<close> (the handler is its
  \<^verbatim>\<open>config\<close> path) and \<^verbatim>\<open>__pre_checks__\<close>.\<close>

definition ensure_root :: "unit io" where
  "ensure_root w =
     (if euid w \<noteq> 0 then die (lit ''This command must be run as root'') w else (Inr (), w))"

definition init :: "ustr \<Rightarrow> ustr io" where
  "init config = and_then ensure_root (\<lambda>_. lift (Inr config))"

definition pre_checks :: "ustr \<Rightarrow> unit io" where
  "pre_checks config =
     and_then (mkdir (parent config)) (\<lambda>_ w.
       if \<not> exists w config then die (config @ lit '' does not exist'') w else (Inr (), w))"

text \<open>
  \<^verbatim>\<open>__run__\<close>: \<^verbatim>\<open>subprocess.run(cmd, check=True)\<close> raises
  \<^verbatim>\<open>CalledProcessError\<close>, which is caught, when the command returns a non-zero code;
  a command that cannot be started raises an error that is not caught.
\<close>

definition run :: "ustr list \<Rightarrow> unit io" where
  "run cmd w =
     (let w' = w\<lparr>commands := commands w @ [cmd]\<rparr>
      in case service w cmd of
           NotStarted \<Rightarrow> (Inl OSError, w')
         | Returned rc \<Rightarrow>
             if rc \<noteq> 0 then die (lit ''Command failed: '' @ str_join (lit '' '') cmd) w'
             else (Inr (), w'))"

text \<open>\<^verbatim>\<open>__print_table__\<close>.\<close>

fun print_rows :: "nat list \<Rightarrow> ustr list list \<Rightarrow> unit io" where
  "print_rows col_widths [] w = (Inr (), w)"
| "print_rows col_widths (row # rows) w =
     (case format_row col_widths row of
        Inl e \<Rightarrow> (Inl e, w)
      | Inr line \<Rightarrow> print_rows col_widths rows (snd (print_out line w)))"

definition print_table :: "ustr list \<Rightarrow> ustr list list \<Rightarrow> unit io" where
  "print_table headers rows =
     and_then (lift (column_widths headers rows)) (\<lambda>col_widths.
     and_then (lift (format_row col_widths headers)) (\<lambda>line.
     and_then (print_out line) (\<lambda>_.
     and_then (lift (format_row col_widths (map (\<lambda>w. replicate w 45) col_widths))) (\<lambda>line.
     and_then (print_out line) (\<lambda>_.
     print_rows col_widths rows)))))"

section \<open>The handlers and the dispatcher\<close>

definition FRR_set :: "ustr \<Rightarrow> FrrSetArgs \<Rightarrow> unit io" where
  "FRR_set config args =
     and_then (write_text config (FRR_set_text args)) (\<lambda>_.
     print_out (lit ''Wrote FRR configuration to '' @ config))"

definition FRR_get :: "ustr \<Rightarrow> unit io" where
  "FRR_get config =
     and_then (pre_checks config) (\<lambda>_.
     and_then (read_text config) (\<lambda>text.
     and_then (lift (FRR_scan text)) (\<lambda>st.
     print_table [lit ''Field'', lit ''Value''] (frr_rows config st))))"

definition FRR_restart :: "ustr \<Rightarrow> unit io" where
  "FRR_restart config =
     and_then (pre_checks config) (\<lambda>_.
     and_then (run [lit ''systemctl'', lit ''restart'', lit ''frr'']) (\<lambda>_.
     print_out (lit ''FRR restarted successfully'')))"

definition NFTables_set :: "ustr \<Rightarrow> NFTablesSetArgs \<Rightarrow> unit io" where
  "NFTables_set config args =
     and_then (write_text config (NFTables_set_text args)) (\<lambda>_.
     print_out (lit ''Wrote nftables configuration to '' @ config))"

definition NFTables_get :: "ustr \<Rightarrow> unit io" where
  "NFTables_get config =
     and_then (pre_checks config) (\<lambda>_.
     and_then (read_text config) (\<lambda>text.
     print_table [lit ''Field'', lit ''Value''] (nft_rows config (NFTables_scan text))))"

definition NFTables_restart :: "ustr \<Rightarrow> unit io" where
  "NFTables_restart config =
     and_then (pre_checks config) (\<lambda>_.
     and_then (run [lit ''systemctl'', lit ''restart'', lit ''nftables'']) (\<lambda>_.
     print_out (lit ''nftables restarted successfully'')))"

text \<open>
  \<^verbatim>\<open>main\<close>: both handlers are constructed before the command line is read; \<open>command\<close>
  is the parsed command line.
\<close>

datatype command =
    Frr_set FrrSetArgs | Frr_get | Frr_restart
  | Nftables_set NFTablesSetArgs | Nftables_get | Nftables_restart

definition main :: "command \<Rightarrow> unit io" where
  "main cmd =
     and_then (init (lit ''/etc/frr/frr.conf'')) (\<lambda>frr_tool.
     and_then (init (lit ''/etc/nftables.conf'')) (\<lambda>nftables_tool.
       case cmd of
         Frr_set args \<Rightarrow> FRR_set frr_tool args
       | Frr_get \<Rightarrow> FRR_get frr_tool
       | Frr_restart \<Rightarrow> FRR_restart frr_tool
       | Nftables_set args \<Rightarrow> NFTables_set nftables_tool args
       | Nftables_get \<Rightarrow> NFTables_get nftables_tool
       | Nftables_restart \<Rightarrow> NFTables_restart nftables_tool))"

section \<open>The table as the specification words it\<close>

text \<open>
  The width of column \<open>j\<close> is the largest of the header's width and of the widths of the
  cells of that column; a row is its cells, each padded with spaces up to the width of its
  column, two spaces between columns; the table is the header row, a row of dashes as wide
  as each column, then the data rows.
\<close>

definition spec_col_width :: "ustr list \<Rightarrow> ustr list list \<Rightarrow> nat \<Rightarrow> nat" where
  "spec_col_width headers rows j =
     Max (insert (length (headers ! j)) ((\<lambda>row. length (row ! j)) ` set rows))"

definition spec_widths :: "ustr list \<Rightarrow> ustr list list \<Rightarrow> nat list" where
  "spec_widths headers rows = map (spec_col_width headers rows) [0..<length headers]"

definition spec_row :: "nat list \<Rightarrow> ustr list \<Rightarrow> ustr" where
  "spec_row widths row =
     str_join (lit ''  '')
       (map2 (\<lambda>cell width. cell @ replicate (width - length cell) 32) row widths)"

definition spec_table :: "ustr list \<Rightarrow> ustr list list \<Rightarrow> ustr list" where
  "spec_table headers rows =
     (let widths = spec_widths headers rows
      in spec_row widths headers
         # spec_row widths (map (\<lambda>width. replicate width 45) widths)
         # map (spec_row widths) rows)"

section \<open>Shapes of parameter strings\<close>

text \<open>A string with no whitespace character; a string with no line boundary.\<close>

definition whitespace_free :: "ustr \<Rightarrow> bool" where
  "whitespace_free s \<longleftrightarrow> (\<forall>c\<in>set s. \<not> isspace c)"

definition one_line :: "ustr \<Rightarrow> bool" where
  "one_line s \<longleftrightarrow> (\<forall>c\<in>set s. \<not> islinebreak c)"

section \<open>Worlds for the examples\<close>

text \<open>A process run by user \<open>uid\<close> on the files \<open>fs\<close>, where every external command
  returns the code \<open>rc\<close>; nothing printed or started yet. Files are encoded in UTF-8,
  which represents every code point but the surrogates.\<close>

definition example_world :: "nat \<Rightarrow> (ustr \<rightharpoonup> ustr) \<Rightarrow> int \<Rightarrow> world" where
  "example_world uid fs rc = \<lparr>euid = uid, files = fs, dirs = {},
     encodable = (\<lambda>c. c < 55296 \<or> 57343 < c), stdout = [], stderr = [],
     commands = [], service = (\<lambda>_. Returned rc)\<rparr>"

section \<open>Evaluation of the string primitives\<close>

lemma lit_Nil: "lit [] = []"
  by (simp add: lit_def)

lemma lit_Cons: "lit (c # cs) = of_char c # lit cs"
  by (simp add: lit_def)

section \<open>The privilege and precondition guards\<close>

lemma and_then_Inl: "m w = (Inl e, w') \<Longrightarrow> and_then m f w = (Inl e, w')"
  by (simp add: and_then_def)

lemma and_then_Inr: "m w = (Inr x, w') \<Longrightarrow> and_then m f w = f x w'"
  by (simp add: and_then_def)

lemma init_not_root:
  "euid w \<noteq> 0 \<Longrightarrow> init config w =
     (Inl (SystemExit 1), w\<lparr>stderr := stderr w @ [lit ''ERROR: '' @ lit ''This command must be run as root'']\<rparr>)"
  by (simp add: init_def and_then_def ensure_root_def die_def)

lemma init_root: "euid w = 0 \<Longrightarrow> init config w = (Inr config, w)"
  by (simp add: init_def and_then_def ensure_root_def lift_def)

lemma main_root:
  "euid w = 0 \<Longrightarrow> main cmd w =
     (case cmd of
         Frr_set args \<Rightarrow> FRR_set (lit ''/etc/frr/frr.conf'') args
       | Frr_get \<Rightarrow> FRR_get (lit ''/etc/frr/frr.conf'')
       | Frr_restart \<Rightarrow> FRR_restart (lit ''/etc/frr/frr.conf'')
       | Nftables_set args \<Rightarrow> NFTables_set (lit ''/etc/nftables.conf'') args
       | Nftables_get \<Rightarrow> NFTables_get (lit ''/etc/nftables.conf'')
       | Nftables_restart \<Rightarrow> NFTables_restart (lit ''/etc/nftables.conf'')) w"
  by (simp add: main_def and_then_Inr [OF init_root])

lemma not_a_directory_dirs [simp]:
  "not_a_directory (w\<lparr>dirs := ds\<rparr>) d = not_a_directory w d"
  by (simp add: not_a_directory_def)

lemma pre_checks_blocked:
  "not_a_directory w (parent config) \<Longrightarrow> pre_checks config w = (Inl OSError, w)"
  by (simp add: pre_checks_def and_then_def mkdir_def)

lemma pre_checks_missing:
  "\<not> exists w config \<Longrightarrow> \<not> not_a_directory w (parent config) \<Longrightarrow>
   config \<notin> set (parent config # ancestors (parent config)) \<Longrightarrow>
   pre_checks config w =
     (Inl (SystemExit 1),
      w\<lparr>dirs := dirs w \<union> set (parent config # ancestors (parent config)),
        stderr := stderr w @ [lit ''ERROR: '' @ config @ lit '' does not exist'']\<rparr>)"
  by (auto simp add: pre_checks_def and_then_def mkdir_def exists_def die_def)

lemma pre_checks_present:
  "exists w config \<Longrightarrow>
   pre_checks config w =
     (Inr (), w\<lparr>dirs := dirs w \<union> set (parent config # ancestors (parent config))\<rparr>)"
  by (auto simp add: pre_checks_def and_then_def mkdir_def exists_def)

lemma parent_frr_conf: "parent (lit ''/etc/frr/frr.conf'') = lit ''/etc/frr''"
  by (simp add: parent_def lit_Nil lit_Cons)

lemma parent_nftables_conf: "parent (lit ''/etc/nftables.conf'') = lit ''/etc''"
  by (simp add: parent_def lit_Nil lit_Cons)

lemma frr_conf_not_above_itself:
  "lit ''/etc/frr/frr.conf'' \<notin>
     set (parent (lit ''/etc/frr/frr.conf'') # ancestors (parent (lit ''/etc/frr/frr.conf'')))"
  by (simp add: parent_def ancestors_def lit_def)

lemma nftables_conf_not_above_itself:
  "lit ''/etc/nftables.conf'' \<notin>
     set (parent (lit ''/etc/nftables.conf'') # ancestors (parent (lit ''/etc/nftables.conf'')))"
  by (simp add: parent_def ancestors_def lit_def)

lemma join_restart_frr:
  "str_join (lit '' '') [lit ''systemctl'', lit ''restart'', lit ''frr''] = lit ''systemctl restart frr''"
  by (simp add: lit_def)

lemma join_restart_nftables:
  "str_join (lit '' '') [lit ''systemctl'', lit ''restart'', lit ''nftables'']
     = lit ''systemctl restart nftables''"
  by (simp add: lit_def)

text \<open>
  Claim C5. When the effective user is not root, constructing a handler prints the
  message prefixed \<^verbatim>\<open>ERROR: \<close> on the error stream and exits with code 1; so does
  \<^verbatim>\<open>main\<close> for every command, and it leaves the files and the directories as they
  were.
\<close>

theorem not_root_exits_1_before_any_write:
  "euid w \<noteq> 0 \<Longrightarrow>
     init config w =
       (Inl (SystemExit 1),
        w\<lparr>stderr := stderr w @ [lit ''ERROR: '' @ lit ''This command must be run as root'']\<rparr>) \<and>
     main cmd w =
       (Inl (SystemExit 1),
        w\<lparr>stderr := stderr w @ [lit ''ERROR: '' @ lit ''This command must be run as root'']\<rparr>) \<and>
     exit_status (fst (main cmd w)) = 1 \<and>
     files (snd (main cmd w)) = files w \<and>
     dirs (snd (main cmd w)) = dirs w"
  by (simp add: main_def and_then_Inl [OF init_not_root] init_not_root)

theorem not_root_exits_1_before_any_write_witness:
  "euid (example_world 1000 Map.empty 0) \<noteq> 0 \<and>
   main (Frr_set \<lparr>sector_addresses = [lit ''10.1.1.1/24''],
           backplane_assigned_addr = lit ''192.168.1.100/24'',
           backplane_gw_ip = lit ''192.168.1.1''\<rparr>) (example_world 1000 Map.empty 0) =
     (Inl (SystemExit 1),
      (example_world 1000 Map.empty 0)
        \<lparr>stderr := [lit ''ERROR: '' @ lit ''This command must be run as root'']\<rparr>) \<and>
   files (snd (main (Frr_set \<lparr>sector_addresses = [lit ''10.1.1.1/24''],
           backplane_assigned_addr = lit ''192.168.1.100/24'',
           backplane_gw_ip = lit ''192.168.1.1''\<rparr>) (example_world 1000 Map.empty 0))) = Map.empty"
  using not_root_exits_1_before_any_write
    [of "example_world 1000 Map.empty 0" "[]"
        "Frr_set \<lparr>sector_addresses = [lit ''10.1.1.1/24''],
           backplane_assigned_addr = lit ''192.168.1.100/24'',
           backplane_gw_ip = lit ''192.168.1.1''\<rparr>"]
  by (simp add: example_world_def)

lemma handlers_missing:
  assumes "\<not> exists w config" and "\<not> not_a_directory w (parent config)"
    and "config \<notin> set (parent config # ancestors (parent config))"
  shows "FRR_get config w =
     (Inl (SystemExit 1),
      w\<lparr>dirs := dirs w \<union> set (parent config # ancestors (parent config)),
        stderr := stderr w @ [lit ''ERROR: '' @ config @ lit '' does not exist'']\<rparr>)"
    and "FRR_restart config w =
     (Inl (SystemExit 1),
      w\<lparr>dirs := dirs w \<union> set (parent config # ancestors (parent config)),
        stderr := stderr w @ [lit ''ERROR: '' @ config @ lit '' does not exist'']\<rparr>)"
    and "NFTables_get config w =
     (Inl (SystemExit 1),
      w\<lparr>dirs := dirs w \<union> set (parent config # ancestors (parent config)),
        stderr := stderr w @ [lit ''ERROR: '' @ config @ lit '' does not exist'']\<rparr>)"
    and "NFTables_restart config w =
     (Inl (SystemExit 1),
      w\<lparr>dirs := dirs w \<union> set (parent config # ancestors (parent config)),
        stderr := stderr w @ [lit ''ERROR: '' @ config @ lit '' does not exist'']\<rparr>)"
  by (simp_all add: FRR_get_def FRR_restart_def NFTables_get_def NFTables_restart_def
      and_then_def pre_checks_missing [OF assms])

lemma handlers_blocked:
  assumes "not_a_directory w (parent config)"
  shows "FRR_get config w = (Inl OSError, w)"
    and "FRR_restart config w = (Inl OSError, w)"
    and "NFTables_get config w = (Inl OSError, w)"
    and "NFTables_restart config w = (Inl OSError, w)"
  by (simp_all add: FRR_get_def FRR_restart_def NFTables_get_def NFTables_restart_def
      and_then_def pre_checks_blocked [OF assms])

text \<open>
  Claim C6, as stated, fails. Where \<^verbatim>\<open>/etc/frr\<close> is a regular file, the configuration
  file \<^verbatim>\<open>/etc/frr/frr.conf\<close> does not exist, and \<^verbatim>\<open>frr get\<close> run as root ends in
  \<^verbatim>\<open>__pre_checks__\<close> with the error that \<^verbatim>\<open>mkdir\<close> raises, before the test for the
  file: nothing is printed on the error stream, so the missing path is not named.
\<close>

theorem missing_config_under_regular_file_raises:
  "euid (example_world 0 [lit ''/etc/frr'' \<mapsto> lit ''x''] 0) = 0 \<and>
   \<not> exists (example_world 0 [lit ''/etc/frr'' \<mapsto> lit ''x''] 0) (lit ''/etc/frr/frr.conf'') \<and>
   main Frr_get (example_world 0 [lit ''/etc/frr'' \<mapsto> lit ''x''] 0) =
     (Inl OSError, example_world 0 [lit ''/etc/frr'' \<mapsto> lit ''x''] 0) \<and>
   stderr (snd (main Frr_get (example_world 0 [lit ''/etc/frr'' \<mapsto> lit ''x''] 0))) = []"
  by (simp add: example_world_def main_def init_def ensure_root_def lift_def and_then_def
      FRR_get_def pre_checks_def mkdir_def exists_def not_a_directory_def parent_def
      ancestors_def lit_def)

text \<open>
  Claim C6, amended. Run as root, a \<^verbatim>\<open>get\<close> or \<^verbatim>\<open>restart\<close> of either domain whose
  configuration file does not exist ends with exit status 1 and starts no external
  command. When no regular file stands at the parent directory or above it, the handler
  exits through \<^verbatim>\<open>__die__\<close> with the message naming the missing path on the error
  stream; otherwise it ends with the error of \<^verbatim>\<open>mkdir\<close> and prints nothing.
\<close>

theorem missing_config_exits_1_without_restart:
  "euid w = 0 \<Longrightarrow>
   (cmd = Frr_get \<or> cmd = Frr_restart) \<and> config = lit ''/etc/frr/frr.conf'' \<or>
   (cmd = Nftables_get \<or> cmd = Nftables_restart) \<and> config = lit ''/etc/nftables.conf'' \<Longrightarrow>
   \<not> exists w config \<Longrightarrow>
     exit_status (fst (main cmd w)) = 1 \<and>
     stdout (snd (main cmd w)) = stdout w \<and>
     commands (snd (main cmd w)) = commands w \<and>
     (if not_a_directory w (parent config)
      then fst (main cmd w) = Inl OSError \<and> stderr (snd (main cmd w)) = stderr w
      else fst (main cmd w) = Inl (SystemExit 1) \<and>
           stderr (snd (main cmd w)) =
             stderr w @ [lit ''ERROR: '' @ config @ lit '' does not exist''])"
proof -
  assume root: "euid w = 0" and missing: "\<not> exists w config"
    and cmd: "(cmd = Frr_get \<or> cmd = Frr_restart) \<and> config = lit ''/etc/frr/frr.conf'' \<or>
      (cmd = Nftables_get \<or> cmd = Nftables_restart) \<and> config = lit ''/etc/nftables.conf''"
  have apart: "config \<notin> set (parent config # ancestors (parent config))"
    using cmd frr_conf_not_above_itself nftables_conf_not_above_itself by auto
  show ?thesis
  proof (cases "not_a_directory w (parent config)")
    case True
    have "main cmd w = (Inl OSError, w)"
      using cmd handlers_blocked [OF True] by (auto simp add: main_root [OF root])
    with True show ?thesis by simp
  next
    case False
    have "main cmd w =
       (Inl (SystemExit 1),
        w\<lparr>dirs := dirs w \<union> set (parent config # ancestors (parent config)),
          stderr := stderr w @ [lit ''ERROR: '' @ config @ lit '' does not exist'']\<rparr>)"
      using cmd handlers_missing [OF missing False apart]
      by (auto simp add: main_root [OF root])
    with False show ?thesis by simp
  qed
qed

theorem missing_config_exits_1_without_restart_witness:
  "euid (example_world 0 Map.empty 0) = 0 \<and>
   \<not> exists (example_world 0 Map.empty 0) (lit ''/etc/nftables.conf'') \<and>
   \<not> not_a_directory (example_world 0 Map.empty 0) (parent (lit ''/etc/nftables.conf'')) \<and>
   fst (main Nftables_restart (example_world 0 Map.empty 0)) = Inl (SystemExit 1) \<and>
   stderr (snd (main Nftables_restart (example_world 0 Map.empty 0))) =
     [lit ''ERROR: '' @ lit ''/etc/nftables.conf'' @ lit '' does not exist''] \<and>
   commands (snd (main Nftables_restart (example_world 0 Map.empty 0))) = []"
  using missing_config_exits_1_without_restart
    [of "example_world 0 Map.empty 0" Nftables_restart "lit ''/etc/nftables.conf''"]
  by (simp add: example_world_def exists_def not_a_directory_def)

section \<open>Restarting a service, writing a configuration\<close>

lemma run_failed:
  "service w cmd = Returned rc \<Longrightarrow> rc \<noteq> 0 \<Longrightarrow>
   run cmd w =
     (Inl (SystemExit 1),
      w\<lparr>commands := commands w @ [cmd],
        stderr := stderr w @ [lit ''ERROR: '' @ lit ''Command failed: '' @ str_join (lit '' '') cmd]\<rparr>)"
  by (simp add: run_def die_def)

lemma run_succeeded:
  "service w cmd = Returned 0 \<Longrightarrow> run cmd w = (Inr (), w\<lparr>commands := commands w @ [cmd]\<rparr>)"
  by (simp add: run_def)

lemma restart_after_pre_checks:
  "exists w config \<Longrightarrow>
   FRR_restart config w =
     and_then (run [lit ''systemctl'', lit ''restart'', lit ''frr''])
       (\<lambda>_. print_out (lit ''FRR restarted successfully''))
       (w\<lparr>dirs := dirs w \<union> set (parent config # ancestors (parent config))\<rparr>)"
  "exists w config \<Longrightarrow>
   NFTables_restart config w =
     and_then (run [lit ''systemctl'', lit ''restart'', lit ''nftables''])
       (\<lambda>_. print_out (lit ''nftables restarted successfully''))
       (w\<lparr>dirs := dirs w \<union> set (parent config # ancestors (parent config))\<rparr>)"
  by (simp_all add: FRR_restart_def NFTables_restart_def and_then_def pre_checks_present)

text \<open>
  Claim C7. A restart whose pre-checks pass starts \<^verbatim>\<open>systemctl restart <service>\<close>. If the
  command returns a non-zero code, the handler prints the \<^verbatim>\<open>ERROR: \<close> message naming
  that command and exits with code 1; if it returns 0, the confirmation naming the domain
  is printed and the handler returns normally.
\<close>

theorem restart_reports_the_command_result:
  "exists w config \<Longrightarrow>
   (h = FRR_restart \<and> name = lit ''frr'' \<and> done = lit ''FRR restarted successfully'') \<or>
   (h = NFTables_restart \<and> name = lit ''nftables'' \<and>
      done = lit ''nftables restarted successfully'') \<Longrightarrow>
   service w [lit ''systemctl'', lit ''restart'', name] = Returned rc \<Longrightarrow>
   commands (snd (h config w)) = commands w @ [[lit ''systemctl'', lit ''restart'', name]] \<and>
   (if rc \<noteq> 0
    then fst (h config w) = Inl (SystemExit 1) \<and>
         exit_status (fst (h config w)) = 1 \<and>
         stderr (snd (h config w)) =
           stderr w @ [lit ''ERROR: '' @ lit ''Command failed: '' @ lit ''systemctl restart '' @ name] \<and>
         stdout (snd (h config w)) = stdout w
    else fst (h config w) = Inr () \<and>
         exit_status (fst (h config w)) = 0 \<and>
         stdout (snd (h config w)) = stdout w @ [done] \<and>
         stderr (snd (h config w)) = stderr w)"
proof -
  assume ex: "exists w config"
    and which: "(h = FRR_restart \<and> name = lit ''frr'' \<and> done = lit ''FRR restarted successfully'') \<or>
      (h = NFTables_restart \<and> name = lit ''nftables'' \<and>
      done = lit ''nftables restarted successfully'')"
    and rc: "service w [lit ''systemctl'', lit ''restart'', name] = Returned rc"
  let ?w = "w\<lparr>dirs := dirs w \<union> set (parent config # ancestors (parent config))\<rparr>"
  let ?cmd = "[lit ''systemctl'', lit ''restart'', name]"
  have rc': "service ?w ?cmd = Returned rc" using rc by simp
  have h: "h config w = and_then (run ?cmd) (\<lambda>_. print_out done) ?w"
    using which restart_after_pre_checks [OF ex] by auto
  show ?thesis
  proof (cases "rc = 0")
    case True
    with rc' have "run ?cmd ?w = (Inr (), ?w\<lparr>commands := commands ?w @ [?cmd]\<rparr>)"
      by (simp add: run_succeeded)
    then show ?thesis using True by (simp add: h and_then_def print_out_def)
  next
    case False
    from run_failed [OF rc' False] show ?thesis using False
      by (simp add: h and_then_def lit_def)
  qed
qed

theorem restart_reports_the_command_result_witness:
  "exists (example_world 0 [lit ''/etc/frr/frr.conf'' \<mapsto> lit ''end''] 3) (lit ''/etc/frr/frr.conf'') \<and>
   fst (FRR_restart (lit ''/etc/frr/frr.conf'')
         (example_world 0 [lit ''/etc/frr/frr.conf'' \<mapsto> lit ''end''] 3)) = Inl (SystemExit 1) \<and>
   stderr (snd (FRR_restart (lit ''/etc/frr/frr.conf'')
         (example_world 0 [lit ''/etc/frr/frr.conf'' \<mapsto> lit ''end''] 3))) =
     [lit ''ERROR: '' @ lit ''Command failed: '' @ lit ''systemctl restart '' @ lit ''frr'']"
  using restart_reports_the_command_result
    [of "example_world 0 [lit ''/etc/frr/frr.conf'' \<mapsto> lit ''end''] 3" "lit ''/etc/frr/frr.conf''"
        FRR_restart "lit ''frr''" "lit ''FRR restarted successfully''" 3]
  by (simp add: example_world_def exists_def not_a_directory_def parent_def ancestors_def
      lit_def)

lemma FRR_set_result:
  "FRR_set config args w =
     (if config \<in> dirs w \<or> parent config \<notin> dirs w \<or> not_a_directory w (parent config)
      then (Inl OSError, w)
      else if \<forall>c\<in>set (FRR_set_text args). encodable w c
      then (Inr (), w\<lparr>files := (files w)(config \<mapsto> FRR_set_text args),
                      stdout := stdout w @ [lit ''Wrote FRR configuration to '' @ config]\<rparr>)
      else (Inl UnicodeEncodeError, w\<lparr>files := (files w)(config \<mapsto> [])\<rparr>))"
  by (simp add: FRR_set_def and_then_def write_text_def print_out_def)

lemma NFTables_set_result:
  "NFTables_set config args w =
     (if config \<in> dirs w \<or> parent config \<notin> dirs w \<or> not_a_directory w (parent config)
      then (Inl OSError, w)
      else if \<forall>c\<in>set (NFTables_set_text args). encodable w c
      then (Inr (), w\<lparr>files := (files w)(config \<mapsto> NFTables_set_text args),
                      stdout := stdout w @ [lit ''Wrote nftables configuration to '' @ config]\<rparr>)
      else (Inl UnicodeEncodeError, w\<lparr>files := (files w)(config \<mapsto> [])\<rparr>))"
  by (simp add: NFTables_set_def and_then_def write_text_def print_out_def)

text \<open>
  Claim C9. Whenever a \<^verbatim>\<open>set\<close> returns normally, the text it has written is
  \<open>FRR_set_text\<close> (or \<open>NFTables_set_text\<close>) of its arguments: two writes from equal
  arguments that both return leave the same text, whatever the two states of the process
  and the two paths written.
\<close>

theorem rendered_text_depends_on_params_only:
  "(fst (FRR_set p a u) = Inr () \<and> fst (FRR_set q a v) = Inr () \<longrightarrow>
      files (snd (FRR_set p a u)) p = Some (FRR_set_text a) \<and>
      files (snd (FRR_set q a v)) q = Some (FRR_set_text a)) \<and>
   (fst (NFTables_set p b u) = Inr () \<and> fst (NFTables_set q b v) = Inr () \<longrightarrow>
      files (snd (NFTables_set p b u)) p = Some (NFTables_set_text b) \<and>
      files (snd (NFTables_set q b v)) q = Some (NFTables_set_text b))"
  by (simp add: FRR_set_result NFTables_set_result)

theorem rendered_text_depends_on_params_only_witness:
  "fst (NFTables_set (lit ''/etc/nftables.conf'')
         \<lparr>primary_sector_ip = lit ''10.1.1.1'', backplane_network = lit ''192.168.1.0/24''\<rparr>
         ((example_world 0 Map.empty 0)\<lparr>dirs := {lit ''/'', lit ''/etc''}\<rparr>)) = Inr () \<and>
   fst (NFTables_set (lit ''/tmp/nft'')
         \<lparr>primary_sector_ip = lit ''10.1.1.1'', backplane_network = lit ''192.168.1.0/24''\<rparr>
         ((example_world 0 [lit ''/tmp/nft'' \<mapsto> lit ''old''] 1)
            \<lparr>dirs := {lit ''/'', lit ''/tmp''}\<rparr>)) = Inr () \<and>
   files (snd (NFTables_set (lit ''/etc/nftables.conf'')
         \<lparr>primary_sector_ip = lit ''10.1.1.1'', backplane_network = lit ''192.168.1.0/24''\<rparr>
         ((example_world 0 Map.empty 0)\<lparr>dirs := {lit ''/'', lit ''/etc''}\<rparr>)))
       (lit ''/etc/nftables.conf'') =
   files (snd (NFTables_set (lit ''/tmp/nft'')
         \<lparr>primary_sector_ip = lit ''10.1.1.1'', backplane_network = lit ''192.168.1.0/24''\<rparr>
         ((example_world 0 [lit ''/tmp/nft'' \<mapsto> lit ''old''] 1)
            \<lparr>dirs := {lit ''/'', lit ''/tmp''}\<rparr>)))
       (lit ''/tmp/nft'')"
  using rendered_text_depends_on_params_only
    [of "lit ''/etc/nftables.conf''" _
        "(example_world 0 Map.empty 0)\<lparr>dirs := {lit ''/'', lit ''/etc''}\<rparr>"
        "lit ''/tmp/nft''"
        "(example_world 0 [lit ''/tmp/nft'' \<mapsto> lit ''old''] 1)
           \<lparr>dirs := {lit ''/'', lit ''/tmp''}\<rparr>"
        "\<lparr>primary_sector_ip = lit ''10.1.1.1'', backplane_network = lit ''192.168.1.0/24''\<rparr>"]
  by (simp add: NFTables_set_result example_world_def not_a_directory_def parent_def
      ancestors_def NFTables_set_text_def NFTables_set_lines_def lit_def)

section \<open>The table renderer meets its specification\<close>

lemma widen_in_range:
  "i < length cw \<Longrightarrow> widen cw (i, cell) = Inr (cw[i := max (cw ! i) (length cell)])"
  by (simp add: widen_def item_def)

lemma widen_out_of_range: "length cw \<le> i \<Longrightarrow> widen cw (i, cell) = Inl IndexError"
  by (simp add: widen_def item_def)

lemma widen_from_ok:
  "k + length row \<le> length cw \<Longrightarrow>
   \<exists>cw'. for_each widen cw (enumerate k row) = Inr cw' \<and> length cw' = length cw \<and>
     (\<forall>j<length cw. cw' ! j =
        (if k \<le> j \<and> j < k + length row then max (cw ! j) (length (row ! (j - k)))
         else cw ! j))"
proof (induction row arbitrary: k cw)
  case Nil
  then show ?case by simp
next
  case (Cons c cs)
  let ?cw1 = "cw[k := max (cw ! k) (length c)]"
  from Cons.prems have k: "k < length cw" and rest: "Suc k + length cs \<le> length ?cw1"
    by simp_all
  from Cons.IH [OF rest] obtain cw' where
    run: "for_each widen ?cw1 (enumerate (Suc k) cs) = Inr cw'" and
    len: "length cw' = length cw" and
    nth: "\<forall>j<length cw. cw' ! j =
        (if Suc k \<le> j \<and> j < Suc k + length cs then max (?cw1 ! j) (length (cs ! (j - Suc k)))
         else ?cw1 ! j)"
    by auto
  have "for_each widen cw (enumerate k (c # cs)) = Inr cw'"
    by (simp add: widen_in_range [OF k] run)
  moreover have "\<forall>j<length cw. cw' ! j =
        (if k \<le> j \<and> j < k + length (c # cs) then max (cw ! j) (length ((c # cs) ! (j - k)))
         else cw ! j)"
  proof (intro allI impI)
    fix j assume j: "j < length cw"
    show "cw' ! j =
        (if k \<le> j \<and> j < k + length (c # cs) then max (cw ! j) (length ((c # cs) ! (j - k)))
         else cw ! j)"
    proof (cases "j = k")
      case True
      with nth j k show ?thesis by simp
    next
      case False
      then have "(c # cs) ! (j - k) = cs ! (j - Suc k)" if "k \<le> j"
        using that by (simp add: nth_Cons')
      with nth j False show ?thesis by auto
    qed
  qed
  ultimately show ?case using len by blast
qed

lemma widen_from_fails:
  "k \<le> length cw \<Longrightarrow> length cw < k + length row \<Longrightarrow>
   for_each widen cw (enumerate k row) = Inl IndexError"
proof (induction row arbitrary: k cw)
  case Nil
  then show ?case by simp
next
  case (Cons c cs)
  show ?case
  proof (cases "k < length cw")
    case True
    with Cons.prems have "for_each widen (cw[k := max (cw ! k) (length c)]) (enumerate (Suc k) cs)
        = Inl IndexError"
      by (intro Cons.IH) simp_all
    with True show ?thesis by (simp add: widen_in_range)
  next
    case False
    then show ?thesis by (simp add: widen_out_of_range)
  qed
qed

lemma widen_row_ok:
  "length row \<le> length cw \<Longrightarrow>
   \<exists>cw'. widen_row cw row = Inr cw' \<and> length cw' = length cw \<and>
     (\<forall>j<length cw. cw' ! j =
        (if j < length row then max (cw ! j) (length (row ! j)) else cw ! j))"
  using widen_from_ok [of 0 row cw] unfolding widen_row_def by auto

lemma widen_row_fails: "length cw < length row \<Longrightarrow> widen_row cw row = Inl IndexError"
  unfolding widen_row_def by (rule widen_from_fails) simp_all

lemma Max_insert_max:
  "finite S \<Longrightarrow> Max (insert (max a b) S) = Max (insert a (insert b S))"
  by (cases "S = {}") (simp_all add: max.assoc)

lemma widths_loop_ok:
  "\<forall>row\<in>set rows. length row \<le> length cw \<Longrightarrow>
   \<exists>cw'. for_each widen_row cw rows = Inr cw' \<and> length cw' = length cw \<and>
     (\<forall>j<length cw. cw' ! j =
        Max (insert (cw ! j) ((\<lambda>row. length (row ! j)) ` {row \<in> set rows. j < length row})))"
proof (induction rows arbitrary: cw)
  case Nil
  then show ?case by simp
next
  case (Cons r rs)
  from Cons.prems have "length r \<le> length cw" by simp
  from widen_row_ok [OF this] obtain cw1 where
    r: "widen_row cw r = Inr cw1" and len1: "length cw1 = length cw" and
    nth1: "\<And>j. j < length cw \<Longrightarrow>
           cw1 ! j = (if j < length r then max (cw ! j) (length (r ! j)) else cw ! j)"
    by blast
  from Cons.prems len1 have "\<forall>row\<in>set rs. length row \<le> length cw1" by simp
  from Cons.IH [OF this] obtain cw' where
    rs: "for_each widen_row cw1 rs = Inr cw'" and len: "length cw' = length cw1" and
    nth: "\<forall>j<length cw1. cw' ! j =
        Max (insert (cw1 ! j) ((\<lambda>row. length (row ! j)) ` {row \<in> set rs. j < length row}))"
    by auto
  have "for_each widen_row cw (r # rs) = Inr cw'" by (simp add: r rs)
  moreover have "\<forall>j<length cw. cw' ! j =
        Max (insert (cw ! j) ((\<lambda>row. length (row ! j)) ` {row \<in> set (r # rs). j < length row}))"
  proof (intro allI impI)
    fix j assume j: "j < length cw"
    let ?S = "(\<lambda>row. length (row ! j)) ` {row \<in> set rs. j < length row}"
    have fin: "finite ?S" by simp
    show "cw' ! j =
        Max (insert (cw ! j) ((\<lambda>row. length (row ! j)) ` {row \<in> set (r # rs). j < length row}))"
    proof (cases "j < length r")
      case True
      then have "{row \<in> set (r # rs). j < length row} = insert r {row \<in> set rs. j < length row}"
        by auto
      then have "(\<lambda>row. length (row ! j)) ` {row \<in> set (r # rs). j < length row}
          = insert (length (r ! j)) ?S"
        by simp
      moreover have "cw' ! j = Max (insert (max (cw ! j) (length (r ! j))) ?S)"
        using nth j len1 nth1 [OF j] True by simp
      ultimately show ?thesis by (simp add: Max_insert_max [OF fin])
    next
      case False
      then have "{row \<in> set (r # rs). j < length row} = {row \<in> set rs. j < length row}"
        by auto
      moreover have "cw' ! j = Max (insert (cw ! j) ?S)"
        using nth j len1 nth1 [OF j] False by simp
      ultimately show ?thesis by simp
    qed
  qed
  ultimately show ?case using len len1 by auto
qed

lemma widths_loop_fails:
  "\<exists>row\<in>set rows. length cw < length row \<Longrightarrow> for_each widen_row cw rows = Inl IndexError"
proof (induction rows arbitrary: cw)
  case Nil
  then show ?case by simp
next
  case (Cons r rs)
  show ?case
  proof (cases "length cw < length r")
    case True
    then show ?thesis by (simp add: widen_row_fails)
  next
    case False
    then have "length r \<le> length cw" by simp
    from widen_row_ok [OF this] obtain cw1 where
      r: "widen_row cw r = Inr cw1" and len1: "length cw1 = length cw"
      by blast
    from Cons.prems False len1 have "\<exists>row\<in>set rs. length cw1 < length row" by auto
    from Cons.IH [OF this] show ?thesis by (simp add: r)
  qed
qed

lemma collect_cells:
  "k + length row \<le> length cw \<Longrightarrow>
   collect (\<lambda>(i, cell). case item cw i of Inl e \<Rightarrow> Inl e | Inr w \<Rightarrow> Inr (ljust cell w))
     (enumerate k row)
   = Inr (map2 (\<lambda>cell width. cell @ replicate (width - length cell) 32) row (drop k cw))"
proof (induction row arbitrary: k)
  case Nil
  then show ?case by simp
next
  case (Cons c cs)
  then have k: "k < length cw" and rest: "Suc k + length cs \<le> length cw" by simp_all
  from k have "drop k cw = cw ! k # drop (Suc k) cw" by (simp add: Cons_nth_drop_Suc)
  with Cons.IH [OF rest] k show ?case by (simp add: item_def ljust_def)
qed

lemma format_row_ok: "length row \<le> length cw \<Longrightarrow> format_row cw row = Inr (spec_row cw row)"
  using collect_cells [of 0 row cw] by (simp add: format_row_def spec_row_def)

lemma print_rows_ok:
  "\<forall>row\<in>set rows. length row \<le> length cw \<Longrightarrow>
   print_rows cw rows w = (Inr (), w\<lparr>stdout := stdout w @ map (spec_row cw) rows\<rparr>)"
  by (induction rows arbitrary: w) (simp_all add: format_row_ok print_out_def)

lemma print_table_ok:
  assumes widths: "column_widths headers rows = Inr cw"
    and len: "length cw = length headers"
    and rows: "\<forall>row\<in>set rows. length row \<le> length headers"
  shows "print_table headers rows w =
     (Inr (), w\<lparr>stdout := stdout w @
        (spec_row cw headers # spec_row cw (map (\<lambda>width. replicate width 45) cw)
         # map (spec_row cw) rows)\<rparr>)"
proof -
  have "print_rows cw rows w' = (Inr (), w'\<lparr>stdout := stdout w' @ map (spec_row cw) rows\<rparr>)"
    for w'
    using rows len by (simp add: print_rows_ok)
  then show ?thesis
    using len
    by (simp add: print_table_def and_then_def lift_def widths format_row_ok print_out_def)
qed

lemma column_widths_ok:
  assumes "\<forall>row\<in>set rows. length row \<le> length headers"
  shows "\<exists>cw. column_widths headers rows = Inr cw \<and> length cw = length headers \<and>
     (\<forall>j<length headers. cw ! j =
        Max (insert (length (headers ! j))
               ((\<lambda>row. length (row ! j)) ` {row \<in> set rows. j < length row})))"
  using widths_loop_ok [of rows "map length headers"] assms
  by (simp add: column_widths_def)

lemma column_widths_equal_rows:
  assumes "\<forall>row\<in>set rows. length row = length headers"
  shows "column_widths headers rows = Inr (spec_widths headers rows)"
proof -
  from assms have "\<forall>row\<in>set rows. length row \<le> length headers" by simp
  from column_widths_ok [OF this] obtain cw where
    cw: "column_widths headers rows = Inr cw" and len: "length cw = length headers" and
    nth: "\<forall>j<length headers. cw ! j =
        Max (insert (length (headers ! j))
               ((\<lambda>row. length (row ! j)) ` {row \<in> set rows. j < length row}))"
    by blast
  have same: "cw ! j = spec_widths headers rows ! j" if j: "j < length headers" for j
  proof -
    from assms j have "{row \<in> set rows. j < length row} = set rows" by auto
    with nth j show ?thesis by (simp add: spec_widths_def spec_col_width_def)
  qed
  have "cw = spec_widths headers rows"
  proof (rule nth_equalityI)
    show "length cw = length (spec_widths headers rows)"
      using len by (simp add: spec_widths_def)
  next
    fix j assume "j < length cw"
    with len same show "cw ! j = spec_widths headers rows ! j" by simp
  qed
  with cw show ?thesis by simp
qed

text \<open>
  Claim C8. When every row has as many cells as there are headers, the widths computed are
  the maximum of the header's width and of the cells' widths in each column, and the lines
  printed are the header row, the row of dashes of each column's width, then the data rows:
  every cell padded on the right to its column's width, the columns two spaces apart.
\<close>

theorem print_table_aligns_columns:
  "\<forall>row\<in>set rows. length row = length headers \<Longrightarrow>
   column_widths headers rows = Inr (spec_widths headers rows) \<and>
   print_table headers rows w = (Inr (), w\<lparr>stdout := stdout w @ spec_table headers rows\<rparr>)"
proof -
  assume eq: "\<forall>row\<in>set rows. length row = length headers"
  have widths: "column_widths headers rows = Inr (spec_widths headers rows)"
    using eq by (rule column_widths_equal_rows)
  have "print_table headers rows w = (Inr (), w\<lparr>stdout := stdout w @ spec_table headers rows\<rparr>)"
    unfolding spec_table_def Let_def
    using eq by (intro print_table_ok widths) (simp_all add: spec_widths_def)
  with widths show ?thesis by simp
qed

theorem print_table_aligns_columns_witness:
  "length [lit ''Sector Gateways'', lit ''10.1.1.1/24, 10.1.2.1/24''] = length [lit ''Field'', lit ''Value''] \<and>
   length [lit ''Backplane Address'', lit ''192.168.1.100/24''] = length [lit ''Field'', lit ''Value''] \<and>
   stdout (snd (print_table [lit ''Field'', lit ''Value'']
       [[lit ''Sector Gateways'', lit ''10.1.1.1/24, 10.1.2.1/24''],
        [lit ''Backplane Address'', lit ''192.168.1.100/24'']]
       (example_world 0 Map.empty 0))) =
     [lit ''Field              Value                   '',
      lit ''-----------------  ------------------------'',
      lit ''Sector Gateways    10.1.1.1/24, 10.1.2.1/24'',
      lit ''Backplane Address  192.168.1.100/24        '']"
  using print_table_aligns_columns
    [of "[[lit ''Sector Gateways'', lit ''10.1.1.1/24, 10.1.2.1/24''],
          [lit ''Backplane Address'', lit ''192.168.1.100/24'']]"
        "[lit ''Field'', lit ''Value'']" "example_world 0 Map.empty 0"]
  by (simp add: example_world_def spec_table_def spec_widths_def spec_col_width_def spec_row_def
      lit_def)

text \<open>
  Claim C10. When no row has more cells than there are headers (shorter rows included),
  the renderer returns normally, having printed the header, the separator and one line per
  row. When some row is longer than the headers, the computation of the widths indexes out
  of range: the renderer raises \<^verbatim>\<open>IndexError\<close> and has printed nothing.
\<close>

theorem print_table_total_iff_no_long_row:
  "((\<forall>row\<in>set rows. length row \<le> length headers) \<longrightarrow>
      (\<exists>out. print_table headers rows w = (Inr (), w\<lparr>stdout := stdout w @ out\<rparr>) \<and>
             length out = length rows + 2)) \<and>
   ((\<exists>row\<in>set rows. length headers < length row) \<longrightarrow>
      column_widths headers rows = Inl IndexError \<and>
      print_table headers rows w = (Inl IndexError, w))"
proof (intro conjI impI)
  assume short: "\<forall>row\<in>set rows. length row \<le> length headers"
  from column_widths_ok [OF short] obtain cw where
    cw: "column_widths headers rows = Inr cw" and len: "length cw = length headers"
    by blast
  from print_table_ok [OF cw len short, of w]
  show "\<exists>out. print_table headers rows w = (Inr (), w\<lparr>stdout := stdout w @ out\<rparr>) \<and>
             length out = length rows + 2"
    by auto
next
  assume long: "\<exists>row\<in>set rows. length headers < length row"
  then show widths: "column_widths headers rows = Inl IndexError"
    unfolding column_widths_def by (intro widths_loop_fails) simp
  then show "print_table headers rows w = (Inl IndexError, w)"
    by (simp add: print_table_def and_then_def lift_def)
qed

theorem print_table_total_iff_no_long_row_witness:
  "length [lit ''x''] \<le> length [lit ''Field'', lit ''Value''] \<and>
   print_table [lit ''Field'', lit ''Value''] [[lit ''x'']] (example_world 0 Map.empty 0) =
     (Inr (), (example_world 0 Map.empty 0)
        \<lparr>stdout := [lit ''Field  Value'', lit ''-----  -----'', lit ''x    '']\<rparr>) \<and>
   length [lit ''Field''] < length [lit ''x'', lit ''y''] \<and>
   print_table [lit ''Field''] [[lit ''x'', lit ''y'']] (example_world 0 Map.empty 0) =
     (Inl IndexError, example_world 0 Map.empty 0)"
  using print_table_total_iff_no_long_row
      [of "[[lit ''x'', lit ''y'']]" "[lit ''Field'']" "example_world 0 Map.empty 0"]
    print_table_total_iff_no_long_row
      [of "[[lit ''x'']]" "[lit ''Field'', lit ''Value'']" "example_world 0 Map.empty 0"]
  by (simp add: example_world_def print_table_def and_then_def lift_def column_widths_def
      widen_row_def widen_def item_def format_row_def ljust_def print_out_def lit_def
      spec_row_def)

section \<open>The scan of the routing configuration\<close>

lemma split_from_empty_iff:
  "split_from cur s = [] \<longleftrightarrow> cur = [] \<and> (\<forall>c\<in>set s. isspace c)"
  by (induction s arbitrary: cur) auto

lemma startswith_Cons: "startswith s (p # ps) \<Longrightarrow> \<exists>cs. s = p # cs"
  by (cases s) auto

lemma route_line_has_token:
  "startswith l (lit ''ip route 0.0.0.0/0'') \<Longrightarrow> split_ws l \<noteq> []"
proof -
  assume "startswith l (lit ''ip route 0.0.0.0/0'')"
  then obtain cs where l: "l = 105 # cs"
    by (auto simp add: lit_Cons dest: startswith_Cons)
  have "\<not> isspace 105" by (simp add: isspace_def)
  with l show ?thesis by (auto simp add: split_ws_def split_from_empty_iff)
qed

lemma frr_line_ok_iff:
  "(\<exists>st'. frr_line st line = Inr st') \<longleftrightarrow>
   (startswith (strip line) (lit ''ip address'') \<longrightarrow> 2 < length (split_ws (strip line)))"
  using route_line_has_token [of "strip line"]
  by (auto simp add: frr_line_def Let_def item_def item_last_def)

lemma frr_line_error: "frr_line st line = Inl e \<Longrightarrow> e = IndexError"
  by (auto simp add: frr_line_def Let_def item_def item_last_def split: if_splits)

lemma for_each_ok_iff:
  assumes "\<And>s x. (\<exists>s'. f s x = Inr s') \<longleftrightarrow> ok x"
  shows "(\<exists>s'. for_each f s xs = Inr s') \<longleftrightarrow> (\<forall>x\<in>set xs. ok x)"
proof (induction xs arbitrary: s)
  case Nil
  then show ?case by simp
next
  case (Cons x xs)
  show ?case
  proof (cases "f s x")
    case (Inl e)
    with assms [of s x] show ?thesis by auto
  next
    case (Inr s1)
    with assms [of s x] Cons.IH [of s1] show ?thesis by auto
  qed
qed

lemma for_each_error:
  assumes "\<And>s x e. f s x = Inl e \<Longrightarrow> e = err"
  shows "for_each f s xs = Inl e \<Longrightarrow> e = err"
proof (induction xs arbitrary: s)
  case Nil
  then show ?case by simp
next
  case (Cons x xs)
  then show ?case using assms by (cases "f s x") auto
qed

text \<open>
  Claim C3, as stated, fails: on the one-line text \<^verbatim>\<open>ip address\<close> the scan of
  \<^verbatim>\<open>FRR.get\<close> reads \<^verbatim>\<open>config_line.split()[2]\<close> of a two-token line and raises
  \<^verbatim>\<open>IndexError\<close>.
\<close>

theorem FRR_scan_raises_on_short_address_line:
  "FRR_scan (lit ''ip address'') = Inl IndexError"
  by (simp add: FRR_scan_def splitlines_def lit_def islinebreak_def frr_line_def
      strip_def isspace_def split_ws_def item_def frr_initial_def)

text \<open>
  Claim C3, amended. On every text the scan of \<^verbatim>\<open>FRR.get\<close> ends, with the fields or with
  \<^verbatim>\<open>IndexError\<close> and no other error. It ends with the fields exactly when every line
  that, once stripped, starts with \<^verbatim>\<open>ip address\<close> has at least three whitespace-separated
  tokens; lines of any other shape never make it fail.
\<close>

theorem FRR_scan_total_up_to_IndexError:
  "((\<exists>st. FRR_scan text = Inr st) \<longleftrightarrow>
      (\<forall>line\<in>set (splitlines text).
         startswith (strip line) (lit ''ip address'') \<longrightarrow>
         2 < length (split_ws (strip line)))) \<and>
   (\<forall>e. FRR_scan text = Inl e \<longrightarrow> e = IndexError)"
proof
  show "(\<exists>st. FRR_scan text = Inr st) \<longleftrightarrow>
      (\<forall>line\<in>set (splitlines text).
         startswith (strip line) (lit ''ip address'') \<longrightarrow>
         2 < length (split_ws (strip line)))"
    unfolding FRR_scan_def by (rule for_each_ok_iff) (rule frr_line_ok_iff)
  show "\<forall>e. FRR_scan text = Inl e \<longrightarrow> e = IndexError"
    unfolding FRR_scan_def using for_each_error [of frr_line IndexError] frr_line_error
    by blast
qed

theorem FRR_scan_total_up_to_IndexError_witness:
  "(\<exists>st. FRR_scan (str_join [10]
      [lit ''garbage !!'', lit '' ip address 10.0.0.1/24'', lit ''ip route 0.0.0.0/0'']) = Inr st) \<and>
   startswith (strip (lit '' ip address 10.0.0.1/24'')) (lit ''ip address'') \<and>
   2 < length (split_ws (strip (lit '' ip address 10.0.0.1/24'')))"
  using FRR_scan_total_up_to_IndexError
    [of "str_join [10]
      [lit ''garbage !!'', lit '' ip address 10.0.0.1/24'', lit ''ip route 0.0.0.0/0'']"]
  by (simp add: splitlines_def lit_def islinebreak_def strip_def isspace_def split_ws_def)

text \<open>
  Claim C4: the code departs from it. With two address lines in the block of
  \<^verbatim>\<open>interface eth1\<close>, the scan reports the second one as the backplane address: after
  the first, \<^verbatim>\<open>ip_type\<close> is reset to \<^verbatim>\<open>""\<close>, which the \<^verbatim>\<open>else\<close> branch
  treats like \<^verbatim>\<open>"backplane"\<close>.
\<close>

theorem FRR_scan_last_backplane_address_wins:
  "FRR_scan (str_join [10]
      [lit ''interface eth1'',
       lit '' ip address 192.168.1.100/24'',
       lit '' ip address 192.168.1.200/24'',
       lit '' no shutdown'',
       lit '''']) =
   Inr \<lparr>l_sector_addresses = [], l_backplane_addr = lit ''192.168.1.200/24'',
        l_backplane_gateway = [], l_ip_type = Unset\<rparr>"
  by (simp add: FRR_scan_def splitlines_def lit_def islinebreak_def frr_line_def
      strip_def isspace_def split_ws_def item_def frr_initial_def)

section \<open>Reading back what the routing codec wrote\<close>

lemma islinebreak_isspace: "islinebreak c \<Longrightarrow> isspace c"
  by (auto simp add: islinebreak_def isspace_def)

lemma whitespace_free_one_line: "whitespace_free s \<Longrightarrow> one_line s"
  by (auto simp add: whitespace_free_def one_line_def dest: islinebreak_isspace)

lemma one_line_append: "one_line (a @ b) \<longleftrightarrow> one_line a \<and> one_line b"
  by (auto simp add: one_line_def)

lemma splitlines_from_line:
  "one_line l \<Longrightarrow> splitlines_from cur (l @ 10 # rest) = (cur @ l) # splitlines_from [] rest"
proof (induction l arbitrary: cur)
  case Nil
  have "islinebreak 10" by (simp add: islinebreak_def)
  then show ?case by (cases rest) simp_all
next
  case (Cons c l)
  then have c: "\<not> islinebreak c" and l: "one_line l" by (simp_all add: one_line_def)
  from c have "c \<noteq> 13" by (auto simp add: islinebreak_def)
  obtain d ds where shape: "l @ 10 # rest = d # ds" by (cases l) auto
  have "splitlines_from cur ((c # l) @ 10 # rest) = splitlines_from (cur @ [c]) (l @ 10 # rest)"
    using c \<open>c \<noteq> 13\<close> by (simp add: shape)
  with Cons.IH [OF l] show ?case by simp
qed

lemma str_join_newline_terminated:
  "str_join [10] (ls @ [[]]) = concat (map (\<lambda>l. l @ [10]) ls)"
proof (induction ls)
  case Nil
  then show ?case by simp
next
  case (Cons l ls)
  obtain x xs where "ls @ [[]] = x # xs" by (cases ls) auto
  with Cons show ?case by simp
qed

lemma splitlines_concat_lines:
  "\<forall>l\<in>set ls. one_line l \<Longrightarrow> splitlines_from [] (concat (map (\<lambda>l. l @ [10]) ls)) = ls"
  by (induction ls) (simp_all add: splitlines_from_line)

lemma splitlines_str_join:
  "\<forall>l\<in>set ls. one_line l \<Longrightarrow> splitlines (str_join [10] (ls @ [[]])) = ls"
  by (simp add: splitlines_def str_join_newline_terminated splitlines_concat_lines)

lemma for_each_append:
  "for_each f s (xs @ ys) =
     (case for_each f s xs of Inl e \<Rightarrow> Inl e | Inr s' \<Rightarrow> for_each f s' ys)"
  by (induction xs arbitrary: s) (simp_all split: sum.splits)

lemma strip_keeps_token:
  assumes "a \<noteq> []" and "whitespace_free a"
  shows "strip (p @ a) = dropWhile isspace p @ a"
proof -
  from assms have hd: "\<not> isspace (hd a)" and last: "\<not> isspace (last a)"
    by (simp_all add: whitespace_free_def)
  from assms(1) hd have front: "dropWhile isspace (p @ a) = dropWhile isspace p @ a"
    by (cases a) (simp_all add: dropWhile_append)
  from assms(1) last have "dropWhile isspace (rev a @ r) = rev a @ r" for r
    by (cases "rev a") (auto simp add: last_rev hd_rev)
  then show ?thesis by (simp add: strip_def front)
qed

lemma split_from_token:
  "whitespace_free a \<Longrightarrow> split_from cur a = (if cur @ a = [] then [] else [cur @ a])"
  by (induction a arbitrary: cur) (simp_all add: whitespace_free_def)

lemma strip_address_line:
  "a \<noteq> [] \<Longrightarrow> whitespace_free a \<Longrightarrow> strip (lit '' ip address '' @ a) = lit ''ip address '' @ a"
  by (simp add: strip_keeps_token) (simp add: lit_def isspace_def)

lemma strip_route_line:
  "a \<noteq> [] \<Longrightarrow> whitespace_free a \<Longrightarrow>
   strip (lit ''ip route 0.0.0.0/0 '' @ a) = lit ''ip route 0.0.0.0/0 '' @ a"
  by (simp add: strip_keeps_token) (simp add: lit_def isspace_def)

lemma split_address_line:
  "a \<noteq> [] \<Longrightarrow> whitespace_free a \<Longrightarrow>
   split_ws (lit ''ip address '' @ a) = [lit ''ip'', lit ''address'', a]"
  by (simp add: split_ws_def lit_def isspace_def split_from_token)

lemma split_route_line:
  "a \<noteq> [] \<Longrightarrow> whitespace_free a \<Longrightarrow>
   split_ws (lit ''ip route 0.0.0.0/0 '' @ a) = [lit ''ip'', lit ''route'', lit ''0.0.0.0/0'', a]"
  by (simp add: split_ws_def lit_def isspace_def split_from_token)

lemma frr_line_address:
  assumes "a \<noteq> []" and "whitespace_free a"
  shows "frr_line st (lit '' ip address '' @ a) =
     (if l_ip_type st = Sector
      then Inr (st\<lparr>l_sector_addresses := l_sector_addresses st @ [a]\<rparr>)
      else Inr (st\<lparr>l_backplane_addr := a, l_ip_type := Unset\<rparr>))"
proof -
  have "\<not> startswith (lit ''ip address '' @ a) (lit ''interface'')"
    and "startswith (lit ''ip address '' @ a) (lit ''ip address'')"
    by (simp_all add: lit_def)
  then show ?thesis
    by (simp add: frr_line_def strip_address_line [OF assms] split_address_line [OF assms]
        item_def)
qed

lemma frr_line_route:
  assumes "a \<noteq> []" and "whitespace_free a"
  shows "frr_line st (lit ''ip route 0.0.0.0/0 '' @ a) = Inr (st\<lparr>l_backplane_gateway := a\<rparr>)"
proof -
  have "\<not> startswith (lit ''ip route 0.0.0.0/0 '' @ a) (lit ''interface'')"
    and "\<not> startswith (lit ''ip route 0.0.0.0/0 '' @ a) (lit ''ip address'')"
    and "startswith (lit ''ip route 0.0.0.0/0 '' @ a) (lit ''ip route 0.0.0.0/0'')"
    by (simp_all add: lit_def)
  then show ?thesis
    by (simp add: frr_line_def strip_route_line [OF assms] split_route_line [OF assms]
        item_last_def)
qed

lemma frr_line_other:
  "frr_line st (lit ''frr defaults traditional'') = Inr st"
  "frr_line st (lit ''log syslog warning'') = Inr st"
  "frr_line st (lit ''ip forwarding'') = Inr st"
  "frr_line st (lit ''!'') = Inr st"
  "frr_line st (lit '' no shutdown'') = Inr st"
  "frr_line st (lit ''end'') = Inr st"
  by (simp_all add: frr_line_def strip_def isspace_def lit_def)

lemma frr_line_interface:
  "frr_line st (lit ''interface eth0'') = Inr (st\<lparr>l_ip_type := Sector\<rparr>)"
  "frr_line st (lit ''interface eth1'') = Inr (st\<lparr>l_ip_type := Backplane\<rparr>)"
  by (simp_all add: frr_line_def strip_def isspace_def lit_def)

lemma frr_sector_lines:
  "\<forall>a\<in>set addrs. a \<noteq> [] \<and> whitespace_free a \<Longrightarrow> l_ip_type st = Sector \<Longrightarrow>
   for_each frr_line st (map (\<lambda>addr. lit '' ip address '' @ addr) addrs) =
     Inr (st\<lparr>l_sector_addresses := l_sector_addresses st @ addrs\<rparr>)"
  by (induction addrs arbitrary: st) (simp_all add: frr_line_address)

lemma one_line_literals:
  "one_line (lit ''frr defaults traditional'')"
  "one_line (lit ''log syslog warning'')"
  "one_line (lit ''ip forwarding'')"
  "one_line (lit ''!'')"
  "one_line (lit ''interface eth0'')"
  "one_line (lit ''interface eth1'')"
  "one_line (lit '' no shutdown'')"
  "one_line (lit ''end'')"
  "one_line (lit '' ip address '')"
  "one_line (lit ''ip route 0.0.0.0/0 '')"
  by (simp_all add: one_line_def lit_def islinebreak_def)

text \<open>
  Claim C2. When every sector address, the backplane address and the gateway are non-empty
  and free of whitespace, scanning the text that \<^verbatim>\<open>FRR.set\<close> writes gives back the sector
  addresses (the same sequence, in order), the backplane address and the gateway.
\<close>

theorem FRR_round_trip:
  assumes sector: "\<forall>a\<in>set (sector_addresses args). a \<noteq> [] \<and> whitespace_free a"
    and addr: "backplane_assigned_addr args \<noteq> [] \<and> whitespace_free (backplane_assigned_addr args)"
    and gw: "backplane_gw_ip args \<noteq> [] \<and> whitespace_free (backplane_gw_ip args)"
  shows "FRR_scan (FRR_set_text args) =
     Inr \<lparr>l_sector_addresses = sector_addresses args,
          l_backplane_addr = backplane_assigned_addr args,
          l_backplane_gateway = backplane_gw_ip args,
          l_ip_type = Unset\<rparr>"
proof -
  let ?sector = "map (\<lambda>addr. lit '' ip address '' @ addr) (sector_addresses args)"
  let ?head = "[lit ''frr defaults traditional'', lit ''log syslog warning'',
      lit ''ip forwarding'', lit ''!'', lit ''interface eth0'']"
  let ?tail = "[lit '' no shutdown'', lit ''!'', lit ''interface eth1'',
      lit '' ip address '' @ backplane_assigned_addr args, lit '' no shutdown'', lit ''!'',
      lit ''ip route 0.0.0.0/0 '' @ backplane_gw_ip args, lit ''!'', lit ''end'']"
  have lines: "FRR_set_lines args = (?head @ ?sector @ ?tail) @ [[]]"
    by (simp add: FRR_set_lines_def lit_Nil)
  have "\<forall>l\<in>set (?head @ ?sector @ ?tail). one_line l"
    using sector addr gw
    by (auto simp add: one_line_literals one_line_append whitespace_free_one_line)
  then have split: "splitlines (FRR_set_text args) = ?head @ ?sector @ ?tail"
    unfolding FRR_set_text_def lines by (rule splitlines_str_join)
  have head: "for_each frr_line frr_initial ?head = Inr (frr_initial\<lparr>l_ip_type := Sector\<rparr>)"
    by (simp add: frr_line_other frr_line_interface)
  have mid: "for_each frr_line (frr_initial\<lparr>l_ip_type := Sector\<rparr>) ?sector =
      Inr (frr_initial\<lparr>l_ip_type := Sector, l_sector_addresses := sector_addresses args\<rparr>)"
    using frr_sector_lines [OF sector, of "frr_initial\<lparr>l_ip_type := Sector\<rparr>"]
    by (simp add: frr_initial_def)
  have tail: "for_each frr_line
        (frr_initial\<lparr>l_ip_type := Sector, l_sector_addresses := sector_addresses args\<rparr>) ?tail =
      Inr \<lparr>l_sector_addresses = sector_addresses args,
          l_backplane_addr = backplane_assigned_addr args,
          l_backplane_gateway = backplane_gw_ip args,
          l_ip_type = Unset\<rparr>"
    using addr gw
    by (simp add: frr_line_other frr_line_interface frr_line_address frr_line_route
        frr_initial_def)
  show ?thesis
    unfolding FRR_scan_def split by (simp only: for_each_append head mid tail sum.case)
qed

theorem FRR_round_trip_witness:
  "whitespace_free (lit ''10.1.1.1/24'') \<and> whitespace_free (lit ''10.1.2.1/24'') \<and>
   whitespace_free (lit ''192.168.1.100/24'') \<and> whitespace_free (lit ''192.168.1.1'') \<and>
   FRR_scan (FRR_set_text \<lparr>sector_addresses = [lit ''10.1.1.1/24'', lit ''10.1.2.1/24''],
       backplane_assigned_addr = lit ''192.168.1.100/24'',
       backplane_gw_ip = lit ''192.168.1.1''\<rparr>) =
     Inr \<lparr>l_sector_addresses = [lit ''10.1.1.1/24'', lit ''10.1.2.1/24''],
          l_backplane_addr = lit ''192.168.1.100/24'',
          l_backplane_gateway = lit ''192.168.1.1'',
          l_ip_type = Unset\<rparr>"
  using FRR_round_trip
    [of "\<lparr>sector_addresses = [lit ''10.1.1.1/24'', lit ''10.1.2.1/24''],
       backplane_assigned_addr = lit ''192.168.1.100/24'',
       backplane_gw_ip = lit ''192.168.1.1''\<rparr>"]
  by (simp add: whitespace_free_def isspace_def lit_def)

section \<open>Reading back what the firewall codec wrote\<close>

lemma splitlines_from_newline:
  "splitlines_from cur (10 # rest) = cur # splitlines_from [] rest"
  using splitlines_from_line [of "[]" cur rest] by (simp add: one_line_def)

lemma splitlines_from_resume:
  "\<exists>ls. splitlines_from cur (s @ 10 # rest) = ls @ splitlines_from [] rest"
proof (induction cur s rule: splitlines_from.induct)
  case (1 cur)
  have "splitlines_from cur ([] @ 10 # rest) = [cur] @ splitlines_from [] rest"
    by (simp add: splitlines_from_newline)
  then show ?case by blast
next
  case (2 cur c)
  have "splitlines_from cur ([c] @ 10 # rest) =
      (if c = 13 then [cur] else if islinebreak c then [cur, []] else [cur @ [c]])
      @ splitlines_from [] rest"
    by (simp add: splitlines_from_newline)
  then show ?case by blast
next
  case (3 cur c d ds)
  show ?case
  proof (cases "c = 13 \<and> d = 10")
    case True
    with "3.IH"(1) obtain ls where "splitlines_from [] (ds @ 10 # rest) = ls @ splitlines_from [] rest"
      by blast
    with True have "splitlines_from cur ((c # d # ds) @ 10 # rest) = (cur # ls) @ splitlines_from [] rest"
      by simp
    then show ?thesis by blast
  next
    case False
    show ?thesis
    proof (cases "islinebreak c")
      case True
      with False "3.IH"(2) obtain ls where
        "splitlines_from [] ((d # ds) @ 10 # rest) = ls @ splitlines_from [] rest"
        by blast
      with False True
      have "splitlines_from cur ((c # d # ds) @ 10 # rest) = (cur # ls) @ splitlines_from [] rest"
        by auto
      then show ?thesis by blast
    next
      case nobreak: False
      with False "3.IH"(3) obtain ls where
        "splitlines_from (cur @ [c]) ((d # ds) @ 10 # rest) = ls @ splitlines_from [] rest"
        by blast
      with False nobreak
      have "splitlines_from cur ((c # d # ds) @ 10 # rest) = ls @ splitlines_from [] rest"
        by auto
      then show ?thesis by blast
    qed
  qed
qed

lemma startswith_append: "startswith (p @ s) p"
  by (induction p) simp_all

lemma contains_middle: "contains (a @ sub @ b) sub"
proof (induction a)
  case Nil
  show ?case
  proof (cases "sub @ b")
    case Nil
    then show ?thesis by simp
  next
    case (Cons c cs)
    with startswith_append [of sub b] show ?thesis by simp
  qed
next
  case (Cons c a)
  then show ?case by simp
qed

lemma strip_drop_line:
  "strip (lit ''    iif \"eth0\" ip daddr '' @ net @ lit '' drop'') =
     lit ''iif \"eth0\" ip daddr '' @ net @ lit '' drop''"
proof -
  have token: "lit ''drop'' \<noteq> []" "whitespace_free (lit ''drop'')"
    by (simp_all add: whitespace_free_def lit_def isspace_def)
  have "lit ''    iif \"eth0\" ip daddr '' @ net @ lit '' drop'' =
      (lit ''    iif \"eth0\" ip daddr '' @ net @ [32]) @ lit ''drop''"
    by (simp add: lit_def)
  then have "strip (lit ''    iif \"eth0\" ip daddr '' @ net @ lit '' drop'') =
      dropWhile isspace (lit ''    iif \"eth0\" ip daddr '' @ net @ [32]) @ lit ''drop''"
    by (simp only: strip_keeps_token [OF token])
  also have "\<dots> = lit ''iif \"eth0\" ip daddr '' @ net @ lit '' drop''"
    by (simp add: lit_def isspace_def)
  finally show ?thesis .
qed

lemma nft_line_drop:
  "nft_line st (lit ''    iif \"eth0\" ip daddr '' @ net @ lit '' drop'') =
     st\<lparr>l_prerouting := lit ''iif \"eth0\" ip daddr '' @ net @ lit '' drop''\<rparr>"
proof -
  have "startswith (lit ''iif \"eth0\" ip daddr '' @ net @ lit '' drop'') (lit ''iif'')"
    by (simp add: lit_def)
  then show ?thesis by (simp add: nft_line_def strip_drop_line)
qed

lemma nft_line_masquerade:
  "nft_line st (lit ''    oif \"eth1\" masquerade'') =
     st\<lparr>l_postrouting := lit ''oif \"eth1\" masquerade''\<rparr>"
  by (simp add: nft_line_def strip_def isspace_def lit_def)

lemma nft_line_other:
  "nft_line st (lit ''  }'') = st"
  "nft_line st [] = st"
  "nft_line st (lit ''  chain postrouting {'') = st"
  "nft_line st (lit ''    type nat hook postrouting priority 100;'') = st"
  "nft_line st (lit ''}'') = st"
  by (simp_all add: nft_line_def strip_def isspace_def lit_def)

lemma one_line_nft_literals:
  "one_line (lit ''    iif \"eth0\" ip daddr '')"
  "one_line (lit '' drop'')"
  "one_line (lit ''  }'')"
  "one_line []"
  "one_line (lit ''  chain postrouting {'')"
  "one_line (lit ''    type nat hook postrouting priority 100;'')"
  "one_line (lit ''    oif \"eth1\" masquerade'')"
  "one_line (lit ''}'')"
  by (simp_all add: one_line_def lit_def islinebreak_def)

lemma masquerade_directive:
  "contains (lit ''oif \"eth1\" masquerade'') (lit ''masquerade'')"
  "lit ''oif \"eth1\" masquerade'' \<noteq> []"
  by (simp_all add: lit_def)

text \<open>
  Claim C1, as stated, fails. \<^verbatim>\<open>NFTables.set\<close> writes two lines that start with
  \<^verbatim>\<open>iif\<close>, the destination-NAT rule and then the drop rule, and the scan keeps the last
  one: for the primary address \<^verbatim>\<open>10.1.1.1\<close> and the network \<^verbatim>\<open>192.168.1.0/24\<close> the
  prerouting field is the drop rule, in which the primary address does not occur.
\<close>

theorem NFTables_scan_misses_primary_sector_ip:
  "lit ''10.1.1.1'' \<noteq> [] \<and> lit ''192.168.1.0/24'' \<noteq> [] \<and>
   l_prerouting (NFTables_scan (NFTables_set_text
       \<lparr>primary_sector_ip = lit ''10.1.1.1'', backplane_network = lit ''192.168.1.0/24''\<rparr>)) =
     lit ''iif \"eth0\" ip daddr 192.168.1.0/24 drop'' \<and>
   \<not> contains (l_prerouting (NFTables_scan (NFTables_set_text
       \<lparr>primary_sector_ip = lit ''10.1.1.1'', backplane_network = lit ''192.168.1.0/24''\<rparr>)))
     (lit ''10.1.1.1'')"
  by (simp add: NFTables_scan_def NFTables_set_text_def NFTables_set_lines_def splitlines_def
      nft_line_def nft_initial_def strip_def isspace_def islinebreak_def lit_def)

text \<open>
  Claim C1, amended. When the backplane network holds no line boundary (the primary address
  may be any string), scanning the text that \<^verbatim>\<open>NFTables.set\<close> writes gives as prerouting
  rule the drop rule \<^verbatim>\<open>iif "eth0" ip daddr <network> drop\<close>, which contains the network,
  and as postrouting rule the non-empty line \<^verbatim>\<open>oif "eth1" masquerade\<close>, which contains
  the masquerade directive.
\<close>

theorem NFTables_round_trip_keeps_drop_rule:
  assumes net: "one_line (backplane_network args)"
  shows "NFTables_scan (NFTables_set_text args) =
       \<lparr>l_prerouting = lit ''iif \"eth0\" ip daddr '' @ backplane_network args @ lit '' drop'',
        l_postrouting = lit ''oif \"eth1\" masquerade''\<rparr> \<and>
     contains (l_prerouting (NFTables_scan (NFTables_set_text args))) (backplane_network args) \<and>
     l_postrouting (NFTables_scan (NFTables_set_text args)) \<noteq> [] \<and>
     contains (l_postrouting (NFTables_scan (NFTables_set_text args))) (lit ''masquerade'')"
proof -
  let ?net = "backplane_network args"
  let ?head = "[lit ''table ip nat {'', lit ''  chain prerouting {'',
      lit ''    type nat hook prerouting priority -100;'']"
  let ?dnat = "lit ''    iif \"eth1\" ip daddr '' @ ?net @ lit '' dnat to ''
      @ primary_sector_ip args"
  let ?tail = "[lit ''    iif \"eth0\" ip daddr '' @ ?net @ lit '' drop'', lit ''  }'', [],
      lit ''  chain postrouting {'', lit ''    type nat hook postrouting priority 100;'',
      lit ''    oif \"eth1\" masquerade'', lit ''  }'', lit ''}'']"
  let ?before = "concat (map (\<lambda>l. l @ [10]) ?head) @ ?dnat"
  let ?after = "concat (map (\<lambda>l. l @ [10]) ?tail)"
  have "NFTables_set_lines args = (?head @ [?dnat] @ ?tail) @ [[]]"
    by (simp add: NFTables_set_lines_def lit_Nil)
  then have "NFTables_set_text args = concat (map (\<lambda>l. l @ [10]) (?head @ [?dnat] @ ?tail))"
    unfolding NFTables_set_text_def by (simp only: str_join_newline_terminated)
  also have "\<dots> = ?before @ 10 # ?after" by simp
  finally have whole: "NFTables_set_text args = ?before @ 10 # ?after" .
  obtain ls where "splitlines_from [] (?before @ 10 # ?after) = ls @ splitlines_from [] ?after"
    using splitlines_from_resume by blast
  moreover have "\<forall>l\<in>set ?tail. one_line l"
    using net by (simp add: one_line_nft_literals one_line_append)
  then have "splitlines_from [] ?after = ?tail" by (rule splitlines_concat_lines)
  ultimately have split: "splitlines (NFTables_set_text args) = ls @ ?tail"
    by (simp only: splitlines_def whole)
  have tail: "foldl nft_line st ?tail =
       \<lparr>l_prerouting = lit ''iif \"eth0\" ip daddr '' @ ?net @ lit '' drop'',
        l_postrouting = lit ''oif \"eth1\" masquerade''\<rparr>" for st
    by (simp add: nft_line_drop nft_line_masquerade nft_line_other)
  have scan: "NFTables_scan (NFTables_set_text args) =
       \<lparr>l_prerouting = lit ''iif \"eth0\" ip daddr '' @ ?net @ lit '' drop'',
        l_postrouting = lit ''oif \"eth1\" masquerade''\<rparr>"
    unfolding NFTables_scan_def split foldl_append by (rule tail)
  show ?thesis
    unfolding scan by (simp add: contains_middle masquerade_directive)
qed

theorem NFTables_round_trip_keeps_drop_rule_witness:
  "one_line (lit ''192.168.1.0/24'') \<and>
   NFTables_scan (NFTables_set_text
       \<lparr>primary_sector_ip = lit ''10.1.1.1'', backplane_network = lit ''192.168.1.0/24''\<rparr>) =
     \<lparr>l_prerouting = lit ''iif \"eth0\" ip daddr '' @ lit ''192.168.1.0/24'' @ lit '' drop'',
      l_postrouting = lit ''oif \"eth1\" masquerade''\<rparr>"
  using NFTables_round_trip_keeps_drop_rule
    [of "\<lparr>primary_sector_ip = lit ''10.1.1.1'', backplane_network = lit ''192.168.1.0/24''\<rparr>"]
  by (simp add: one_line_def islinebreak_def lit_def)

end
